theory Spec2Isabelle
  imports Complex_Main
begin

section \<open>Date utilities of core-js-dates-tasks.js\<close>

text \<open>
  The module is a flat set of functions over the JavaScript \<^verbatim>\<open>Date\<close> object and over
  numbers.  The embedding follows the source function by function.

  \<^item> A \<^verbatim>\<open>Date\<close> object is its time value: \<open>Some t\<close> with \<open>t\<close> the milliseconds since
    1970-01-01T00:00:00Z, or \<open>None\<close> for Invalid Date (time value \<^verbatim>\<open>NaN\<close>).
  \<^item> A number that is an integer or \<^verbatim>\<open>NaN\<close> is an \<open>int option\<close>, \<open>None\<close> being \<^verbatim>\<open>NaN\<close>.
    Where the source divides, numbers are IEEE doubles: type \<open>double\<close> below, which
    gives a value only where the platform's result is exact.
  \<^item> \<^verbatim>\<open>undefined\<close> (a variable that was never assigned) is \<open>None\<close> of an option of its own.
  \<^item> \<^verbatim>\<open>throw new Error(msg)\<close> is the left injection of a sum type.
  \<^item> \<^verbatim>\<open>new Date(string)\<close> runs the platform's parser, which is not part of the module:
    a function that starts with it takes the time value the parser produced.
\<close>

subsection \<open>Numbers and comparisons with NaN\<close>

type_synonym number = "int option"

text \<open>
  Every comparison with \<^verbatim>\<open>NaN\<close> is false, also \<^verbatim>\<open>===\<close>; only \<^verbatim>\<open>!==\<close> is true.  On
  \<open>int option\<close> the equality of HOL would make \<open>None = None\<close> true, so \<^verbatim>\<open>===\<close> and the
  cases of a \<^verbatim>\<open>switch\<close> are only ever written against a \<open>Some\<close> constant, where they agree.
\<close>

definition js_lt :: "number \<Rightarrow> number \<Rightarrow> bool" where
  "js_lt a b = (case (a, b) of (Some x, Some y) \<Rightarrow> x < y | _ \<Rightarrow> False)"

definition js_gt :: "number \<Rightarrow> number \<Rightarrow> bool" where
  "js_gt a b = (case (a, b) of (Some x, Some y) \<Rightarrow> x > y | _ \<Rightarrow> False)"

definition js_le :: "number \<Rightarrow> number \<Rightarrow> bool" where
  "js_le a b = (case (a, b) of (Some x, Some y) \<Rightarrow> x \<le> y | _ \<Rightarrow> False)"

definition js_ge :: "number \<Rightarrow> number \<Rightarrow> bool" where
  "js_ge a b = (case (a, b) of (Some x, Some y) \<Rightarrow> x \<ge> y | _ \<Rightarrow> False)"

definition js_add :: "number \<Rightarrow> number \<Rightarrow> number" where
  "js_add a b = (case (a, b) of (Some x, Some y) \<Rightarrow> Some (x + y) | _ \<Rightarrow> None)"

definition js_sub :: "number \<Rightarrow> number \<Rightarrow> number" where
  "js_sub a b = (case (a, b) of (Some x, Some y) \<Rightarrow> Some (x - y) | _ \<Rightarrow> None)"

text \<open>
  The remainder operator \<^verbatim>\<open>%\<close> truncates towards zero: the result has the sign of the
  dividend.  A zero divisor or a \<^verbatim>\<open>NaN\<close> operand gives \<^verbatim>\<open>NaN\<close>.
\<close>

definition js_rem :: "number \<Rightarrow> number \<Rightarrow> number" where
  "js_rem a b = (case (a, b) of
       (Some x, Some y) \<Rightarrow> if y = 0 then None else Some (sgn x * (\<bar>x\<bar> mod \<bar>y\<bar>))
     | _ \<Rightarrow> None)"

subsection \<open>Doubles\<close>

text \<open>
  Numbers of the platform are IEEE 754 doubles, and \<^verbatim>\<open>+\<close>, \<^verbatim>\<open>-\<close> and \<^verbatim>\<open>/\<close> round the exact
  result to the nearest double.  When the exact result is itself a double, the operation
  returns it.  The model computes exactly on rationals and keeps a result only in that
  case: \<open>Finite q\<close> says that the platform's result is exactly \<open>q\<close>; \<open>Inexact\<close> says that
  the model does not determine the result (the platform rounds it, or it is an infinity).
  \<open>representable\<close> is a sufficient condition for a rational to be a double: a numerator
  below \<open>2^53\<close> in absolute value over a power of two up to \<open>2^1000\<close>.
\<close>

datatype double = NaN | Finite rat | Inexact

definition representable :: "rat \<Rightarrow> bool" where
  "representable q = (case quotient_of q of (n, d) \<Rightarrow> \<bar>n\<bar> < 2 ^ 53 \<and> d dvd 2 ^ 1000)"

definition round_exact :: "rat \<Rightarrow> double" where
  "round_exact q = (if representable q then Finite q else Inexact)"

definition of_number :: "number \<Rightarrow> double" where
  "of_number x = (case x of None \<Rightarrow> NaN | Some i \<Rightarrow> round_exact (of_int i))"

definition d_binop :: "(rat \<Rightarrow> rat \<Rightarrow> rat) \<Rightarrow> double \<Rightarrow> double \<Rightarrow> double" where
  "d_binop f a b =
     (case (a, b) of
        (NaN, _) \<Rightarrow> NaN
      | (_, NaN) \<Rightarrow> NaN
      | (Finite x, Finite y) \<Rightarrow> round_exact (f x y)
      | _ \<Rightarrow> Inexact)"

definition d_add :: "double \<Rightarrow> double \<Rightarrow> double" where
  "d_add a b = d_binop (\<lambda>x y. x + y) a b"

definition d_sub :: "double \<Rightarrow> double \<Rightarrow> double" where
  "d_sub a b = d_binop (\<lambda>x y. x - y) a b"

text \<open>A quotient by zero is an infinity or \<^verbatim>\<open>NaN\<close>; the model leaves it undetermined.\<close>

definition d_div :: "double \<Rightarrow> double \<Rightarrow> double" where
  "d_div a b = (if b = Finite 0 then Inexact else d_binop (\<lambda>x y. x / y) a b)"

text \<open>\<^verbatim>\<open>Math.ceil\<close> is exact.\<close>

definition d_ceil :: "double \<Rightarrow> double" where
  "d_ceil a = (case a of NaN \<Rightarrow> NaN | Finite x \<Rightarrow> round_exact (of_int \<lceil>x\<rceil>) | Inexact \<Rightarrow> Inexact)"

subsection \<open>Time values and the calendar of the platform\<close>

text \<open>
  The \<^verbatim>\<open>Date\<close> methods the module calls are built into the platform.  They are
  written here as ECMA-262 (section "Date Objects") defines them, over integer time
  values.  Time values of a valid \<^verbatim>\<open>Date\<close> lie within 8.64e15 milliseconds of the epoch
  (\<open>TimeClip\<close>); integers of that size are exact in the platform's numbers.
  The local time zone is a parameter \<open>tza\<close>, the offset of local time from UTC in
  milliseconds, taken as constant (no daylight-saving transitions).
\<close>

definition msPerDay :: int where
  "msPerDay = 86400000"

definition msPerHour :: int where
  "msPerHour = 3600000"

definition msPerMinute :: int where
  "msPerMinute = 60000"

definition msPerSecond :: int where
  "msPerSecond = 1000"

definition maxTime :: int where
  "maxTime = 8640000000000000"

definition Day :: "int \<Rightarrow> int" where
  "Day t = t div msPerDay"

definition TimeWithinDay :: "int \<Rightarrow> int" where
  "TimeWithinDay t = t mod msPerDay"

definition DaysInYear :: "int \<Rightarrow> int" where
  "DaysInYear y =
     (if y mod 4 \<noteq> 0 then 365
      else if y mod 100 \<noteq> 0 then 366
      else if y mod 400 \<noteq> 0 then 365
      else 366)"

definition DayFromYear :: "int \<Rightarrow> int" where
  "DayFromYear y =
     365 * (y - 1970) + (y - 1969) div 4 - (y - 1901) div 100 + (y - 1601) div 400"

definition TimeFromYear :: "int \<Rightarrow> int" where
  "TimeFromYear y = msPerDay * DayFromYear y"

text \<open>
  ECMA-262 specifies \<open>YearFromTime t\<close> as the largest \<open>y\<close> with \<open>TimeFromYear y \<le> t\<close>.
  The definition computes it from an estimate that is off by at most one year; that it
  meets the specification is proved below (\<open>YearFromTime_bounds\<close>,
  \<open>YearFromTime_largest\<close>).
\<close>

definition YearFromTime :: "int \<Rightarrow> int" where
  "YearFromTime t =
     (let d = Day t; y = 1970 + (400 * d) div 146097 in
      if DayFromYear (y + 1) \<le> d then y + 1
      else if DayFromYear y \<le> d then y
      else y - 1)"

definition DayWithinYear :: "int \<Rightarrow> int" where
  "DayWithinYear t = Day t - DayFromYear (YearFromTime t)"

definition InLeapYear :: "int \<Rightarrow> int" where
  "InLeapYear t = (if DaysInYear (YearFromTime t) = 366 then 1 else 0)"

definition MonthFromTime :: "int \<Rightarrow> int" where
  "MonthFromTime t =
     (let d = DayWithinYear t; l = InLeapYear t in
      if d < 31 then 0
      else if d < 59 + l then 1
      else if d < 90 + l then 2
      else if d < 120 + l then 3
      else if d < 151 + l then 4
      else if d < 181 + l then 5
      else if d < 212 + l then 6
      else if d < 243 + l then 7
      else if d < 273 + l then 8
      else if d < 304 + l then 9
      else if d < 334 + l then 10
      else 11)"

definition DateFromTime :: "int \<Rightarrow> int" where
  "DateFromTime t =
     (let d = DayWithinYear t; l = InLeapYear t; m = MonthFromTime t in
      if m = 0 then d + 1
      else if m = 1 then d - 30
      else if m = 2 then d - 58 - l
      else if m = 3 then d - 89 - l
      else if m = 4 then d - 119 - l
      else if m = 5 then d - 150 - l
      else if m = 6 then d - 180 - l
      else if m = 7 then d - 211 - l
      else if m = 8 then d - 242 - l
      else if m = 9 then d - 272 - l
      else if m = 10 then d - 303 - l
      else d - 333 - l)"

definition WeekDay :: "int \<Rightarrow> int" where
  "WeekDay t = (Day t + 4) mod 7"

definition HourFromTime :: "int \<Rightarrow> int" where
  "HourFromTime t = (t div msPerHour) mod 24"

definition MinFromTime :: "int \<Rightarrow> int" where
  "MinFromTime t = (t div msPerMinute) mod 60"

definition SecFromTime :: "int \<Rightarrow> int" where
  "SecFromTime t = (t div msPerSecond) mod 60"

definition LocalTime :: "int \<Rightarrow> int \<Rightarrow> int" where
  "LocalTime tza t = t + tza"

definition UTC :: "int \<Rightarrow> int \<Rightarrow> int" where
  "UTC tza t = t - tza"

definition MakeTime :: "int \<Rightarrow> int \<Rightarrow> int \<Rightarrow> int \<Rightarrow> int" where
  "MakeTime hour minute sec ms = hour * msPerHour + minute * msPerMinute + sec * msPerSecond + ms"

text \<open>The number of days of a year that precede month \<open>m\<close> (0 is January).\<close>

definition DaysBeforeMonth :: "int \<Rightarrow> int \<Rightarrow> int" where
  "DaysBeforeMonth m l =
     (if m = 0 then 0
      else if m = 1 then 31
      else if m = 2 then 59 + l
      else if m = 3 then 90 + l
      else if m = 4 then 120 + l
      else if m = 5 then 151 + l
      else if m = 6 then 181 + l
      else if m = 7 then 212 + l
      else if m = 8 then 243 + l
      else if m = 9 then 273 + l
      else if m = 10 then 304 + l
      else 334 + l)"

text \<open>
  \<open>MakeDay\<close> is specified through a time value \<open>t\<close> that falls on the first of month
  \<open>mn\<close> of year \<open>ym\<close>.  Its day number is computed arithmetically, as the engines do;
  \<open>MakeDay_first_of_month\<close> below shows that it has the year, month and date the
  specification asks for.
\<close>

definition MakeDay :: "int \<Rightarrow> int \<Rightarrow> int \<Rightarrow> int" where
  "MakeDay year month date =
     (let ym = year + month div 12; mn = month mod 12 in
      DayFromYear ym + DaysBeforeMonth mn (if DaysInYear ym = 366 then 1 else 0) + date - 1)"

definition MakeDate :: "int \<Rightarrow> int \<Rightarrow> int" where
  "MakeDate day time = day * msPerDay + time"

definition MakeFullYear :: "int \<Rightarrow> int" where
  "MakeFullYear year = (if 0 \<le> year \<and> year \<le> 99 then 1900 + year else year)"

definition TimeClip :: "int \<Rightarrow> number" where
  "TimeClip t = (if \<bar>t\<bar> > maxTime then None else Some t)"

subsection \<open>Date objects\<close>

text \<open>
  A \<^verbatim>\<open>Date\<close> is its time value.  \<^verbatim>\<open>new Date(d)\<close> of a \<^verbatim>\<open>Date\<close> copies the time value.
  The getters return \<^verbatim>\<open>NaN\<close> on Invalid Date.
\<close>

definition Date_getFullYear :: "int \<Rightarrow> number \<Rightarrow> number" where
  "Date_getFullYear tza d = map_option (\<lambda>t. YearFromTime (LocalTime tza t)) d"

definition Date_getDate :: "int \<Rightarrow> number \<Rightarrow> number" where
  "Date_getDate tza d = map_option (\<lambda>t. DateFromTime (LocalTime tza t)) d"

definition Date_getDay :: "int \<Rightarrow> number \<Rightarrow> number" where
  "Date_getDay tza d = map_option (\<lambda>t. WeekDay (LocalTime tza t)) d"

definition Date_getUTCMonth :: "number \<Rightarrow> number" where
  "Date_getUTCMonth d = map_option MonthFromTime d"

definition Date_getUTCDate :: "number \<Rightarrow> number" where
  "Date_getUTCDate d = map_option DateFromTime d"

definition Date_getUTCHours :: "number \<Rightarrow> number" where
  "Date_getUTCHours d = map_option HourFromTime d"

definition Date_getUTCMinutes :: "number \<Rightarrow> number" where
  "Date_getUTCMinutes d = map_option MinFromTime d"

definition Date_getUTCSeconds :: "number \<Rightarrow> number" where
  "Date_getUTCSeconds d = map_option SecFromTime d"

text \<open>\<^verbatim>\<open>d.setDate(dt)\<close>: the new time value of \<open>d\<close>.\<close>

definition Date_setDate :: "int \<Rightarrow> number \<Rightarrow> number \<Rightarrow> number" where
  "Date_setDate tza d dt =
     (case d of
        None \<Rightarrow> None
      | Some t0 \<Rightarrow>
          (case dt of
             None \<Rightarrow> None
           | Some n \<Rightarrow>
               let t = LocalTime tza t0;
                   newDate = MakeDate (MakeDay (YearFromTime t) (MonthFromTime t) n) (TimeWithinDay t)
               in TimeClip (UTC tza newDate)))"

text \<open>
  \<^verbatim>\<open>new Date(year, month, date)\<close>: local midnight of the given day.  A year from 0 to 99
  stands for 1900 to 1999 (\<open>MakeFullYear\<close>).
\<close>

definition Date_of_fields :: "int \<Rightarrow> number \<Rightarrow> number \<Rightarrow> number \<Rightarrow> number" where
  "Date_of_fields tza year month date =
     (case (year, month, date) of
        (Some y, Some m, Some dt) \<Rightarrow>
          TimeClip (UTC tza (MakeDate (MakeDay (MakeFullYear y) m dt) (MakeTime 0 0 0 0)))
      | _ \<Rightarrow> None)"

subsection \<open>Numbers as strings\<close>

definition digit_char :: "nat \<Rightarrow> char" where
  "digit_char n = ''0123456789'' ! n"

fun nat_toString :: "nat \<Rightarrow> string" where
  "nat_toString n =
     (if n < 10 then [digit_char n] else nat_toString (n div 10) @ [digit_char (n mod 10)])"

declare nat_toString.simps [simp del]

definition number_toString :: "number \<Rightarrow> string" where
  "number_toString x =
     (case x of
        None \<Rightarrow> ''NaN''
      | Some i \<Rightarrow> if i < 0 then ''-'' @ nat_toString (nat (- i)) else nat_toString (nat i))"

subsection \<open>getNextFriday\<close>

text \<open>
  The switch replaces the weekday by the number of days to add; on \<^verbatim>\<open>NaN\<close> (Invalid
  Date) no case matches and \<^verbatim>\<open>currData\<close> keeps its value.
\<close>

definition getNextFriday :: "int \<Rightarrow> number \<Rightarrow> number" where
  "getNextFriday tza date =
     (let data = date;
          currData = Date_getDay tza data;
          currData =
            (if currData = Some 0 then Some 5
             else if currData = Some 1 then Some 4
             else if currData = Some 2 then Some 3
             else if currData = Some 3 then Some 2
             else if currData = Some 4 then Some 1
             else if currData = Some 5 then Some 7
             else if currData = Some 6 then Some 6
             else currData)
      in Date_setDate tza data (js_add (Date_getDate tza data) currData))"

subsection \<open>getCountDaysInMonth\<close>

text \<open>
  \<^verbatim>\<open>let result;\<close> is never assigned in the \<^verbatim>\<open>default\<close> branch of the switch, so the
  function returns \<^verbatim>\<open>undefined\<close> there: \<open>None\<close>.
\<close>

definition getCountDaysInMonth :: "int \<Rightarrow> int \<Rightarrow> int option" where
  "getCountDaysInMonth month year =
     (if year = 2024 \<and> month = 2 then Some 29
      else if month = 1 then Some 31
      else if month = 2 then Some 28
      else if month = 3 then Some 31
      else if month = 4 then Some 30
      else if month = 5 then Some 31
      else if month = 6 then Some 30
      else if month = 7 then Some 31
      else if month = 8 then Some 31
      else if month = 9 then Some 30
      else if month = 10 then Some 31
      else if month = 11 then Some 30
      else if month = 12 then Some 31
      else None)"

text \<open>The Gregorian rule, in the words of the specification.\<close>

definition gregorian_leap :: "int \<Rightarrow> bool" where
  "gregorian_leap y = (4 dvd y \<and> (\<not> 100 dvd y \<or> 400 dvd y))"

subsection \<open>getCountDaysOnPeriod\<close>

text \<open>
  Both arguments are date strings; the function sees them through \<^verbatim>\<open>new Date(s).getTime()\<close>.
  The three divisions and the addition are those of the source, in its order.
\<close>

definition getCountDaysOnPeriod :: "number \<Rightarrow> number \<Rightarrow> double" where
  "getCountDaysOnPeriod dateStart dateEnd =
     (let date1 = of_number dateStart;
          date2 = of_number dateEnd;
          date3 =
            d_add (d_div (d_div (d_div (d_sub date2 date1) (Finite 1000)) (Finite 3600))
                     (Finite 24))
              (Finite 1)
      in date3)"

text \<open>The formula of the specification: \<open>floor((end - start) / day) + 1\<close>.\<close>

definition count_days_spec :: "int \<Rightarrow> int \<Rightarrow> int" where
  "count_days_spec s e = \<lfloor>(of_int (e - s) :: rat) / of_int msPerDay\<rfloor> + 1"

subsection \<open>isDateInPeriod\<close>

record DatePeriod =
  period_start :: number
  period_end :: number

definition isDateInPeriod :: "number \<Rightarrow> DatePeriod \<Rightarrow> bool" where
  "isDateInPeriod date period =
     (let date1 = period_start period; date2 = period_end period; date3 = date in
      js_le date1 date3 \<and> js_ge date2 date3)"

subsection \<open>The two stubs\<close>

datatype error = Error string

text \<open>
  Both stubs ignore their arguments and throw.  The state of the program is threaded
  through so that the absence of any effect is part of the model.
\<close>

definition getNextFridayThe13th :: "'args \<Rightarrow> 'st \<Rightarrow> (error + number) \<times> 'st" where
  "getNextFridayThe13th args st = (Inl (Error ''Not implemented''), st)"

definition getWorkSchedule :: "'args \<Rightarrow> 'st \<Rightarrow> (error + string list) \<times> 'st" where
  "getWorkSchedule args st = (Inl (Error ''Not implemented''), st)"

subsection \<open>formatDate\<close>

text \<open>
  The argument is a date string; \<open>date\<close> is the time value of \<^verbatim>\<open>new Date(date)\<close>.
  The year is read in local time, every other field in UTC, as the source does.
\<close>

definition formatDate :: "int \<Rightarrow> number \<Rightarrow> string" where
  "formatDate tza date =
     (let newDate = date;
          getYear = Date_getFullYear tza newDate;
          getMonth = js_add (Date_getUTCMonth newDate) (Some 1);
          getDay = Date_getUTCDate newDate;
          getHours = Date_getUTCHours newDate;
          pmAm = (if js_lt getHours (Some 12) then ''AM'' else ''PM'');
          getHours = (if js_gt getHours (Some 12) then js_sub getHours (Some 12) else getHours);
          getMinutes = Date_getUTCMinutes newDate;
          getMinutes =
            (if js_lt getMinutes (Some 10) then ''0'' @ number_toString getMinutes
             else number_toString getMinutes);
          getSeconds = Date_getUTCSeconds newDate;
          getSeconds =
            (if js_lt getSeconds (Some 10) then ''0'' @ number_toString getSeconds
             else number_toString getSeconds)
      in number_toString getMonth @ ''/'' @ number_toString getDay @ ''/''
         @ number_toString getYear @ '', '' @ number_toString getHours @ '':''
         @ getMinutes @ '':'' @ getSeconds @ '' '' @ pmAm)"

text \<open>A field of 0..99 written with two digits, as the specification words the padding.\<close>

definition two_digits :: "int \<Rightarrow> string" where
  "two_digits n = [digit_char (nat n div 10), digit_char (nat n mod 10)]"

subsection \<open>getWeekNumberByDate\<close>

text \<open>
  \<^verbatim>\<open>date - data\<close> subtracts the time values; \<^verbatim>\<open>3600 * 1000 * 24\<close> is the integer 86400000.
  The day count \<^verbatim>\<open>differenceDays\<close> keeps the time of day: nothing rounds it before
  \<^verbatim>\<open>Math.ceil\<close>.
\<close>

definition getWeekNumberByDate :: "int \<Rightarrow> number \<Rightarrow> double" where
  "getWeekNumberByDate tza date =
     (let data = Date_of_fields tza (Date_getFullYear tza date) (Some 0) (Some 0);
          differenceDays = d_div (d_sub (of_number date) (of_number data)) (Finite (3600 * 1000 * 24));
          numberOfWeeek =
            d_ceil (d_div (d_add differenceDays (of_number (Date_getDay tza data))) (Finite 7))
      in numberOfWeeek)"

subsection \<open>isLeapYear\<close>

definition isLeapYear :: "int \<Rightarrow> number \<Rightarrow> bool" where
  "isLeapYear tza date =
     (let data = date;
          leapYear = Date_getFullYear tza data
      in if js_rem leapYear (Some 4) = Some 0 \<and> js_rem leapYear (Some 100) \<noteq> Some 0 then True
         else if js_rem leapYear (Some 100) = Some 0 \<and> js_rem leapYear (Some 400) = Some 0 then True
         else False)"

section \<open>The calendar functions meet their specification\<close>

lemma div_lower: "0 < c \<Longrightarrow> c * (a div c) \<le> (a::int)"
  using mult_div_mod_eq [of c a] pos_mod_sign [of c a] by linarith

lemma div_upper: "0 < c \<Longrightarrow> a < c * (a div c) + (c::int)"
  using mult_div_mod_eq [of c a] pos_mod_bound [of c a] by linarith

lemma DayFromYear_lower: "146097 * y - 287811596 \<le> 400 * DayFromYear y"
proof -
  have "y - 1969 < 4 * ((y - 1969) div 4) + 4" by (rule div_upper) simp
  moreover have "100 * ((y - 1901) div 100) \<le> y - 1901" by (rule div_lower) simp
  moreover have "y - 1601 < 400 * ((y - 1601) div 400) + 400" by (rule div_upper) simp
  ultimately show ?thesis unfolding DayFromYear_def by (simp add: algebra_simps)
qed

lemma DayFromYear_upper: "400 * DayFromYear y \<le> 146097 * y - 287810501"
proof -
  have "4 * ((y - 1969) div 4) \<le> y - 1969" by (rule div_lower) simp
  moreover have "y - 1901 < 100 * ((y - 1901) div 100) + 100" by (rule div_upper) simp
  moreover have "400 * ((y - 1601) div 400) \<le> y - 1601" by (rule div_lower) simp
  ultimately show ?thesis unfolding DayFromYear_def by (simp add: algebra_simps)
qed

lemma DayFromYear_strict_mono:
  assumes "y < y'" shows "DayFromYear y < DayFromYear y'"
proof -
  have "y + 1 \<le> y'" using assms by simp
  then show ?thesis
    using DayFromYear_upper [of y] DayFromYear_lower [of y'] by linarith
qed

lemma DayFromYear_mono: "y \<le> y' \<Longrightarrow> DayFromYear y \<le> DayFromYear y'"
  using DayFromYear_strict_mono [of y y'] by (cases "y = y'") auto

lemma YearFromTime_day_bounds:
  "DayFromYear (YearFromTime t) \<le> Day t \<and> Day t < DayFromYear (YearFromTime t + 1)"
proof -
  define d where "d = Day t"
  define q where "q = (400 * d) div 146097"
  define y where "y = 1970 + q"
  have lo: "146097 * q \<le> 400 * d" unfolding q_def by (rule div_lower) simp
  have hi: "400 * d < 146097 * q + 146097" unfolding q_def by (rule div_upper) simp
  have yq: "146097 * y = 146097 * q + 287811090" unfolding y_def by simp
  have m1: "146097 * (y - 1) = 146097 * y - 146097" by (simp add: algebra_simps)
  have m2: "146097 * (y + 2) = 146097 * y + 292194" by (simp add: algebra_simps)
  have a: "DayFromYear (y - 1) \<le> d"
    using DayFromYear_upper [of "y - 1"] lo yq m1 by linarith
  have b: "d < DayFromYear (y + 2)"
    using DayFromYear_lower [of "y + 2"] hi yq m2 by linarith
  have eq: "YearFromTime t =
      (if DayFromYear (y + 1) \<le> d then y + 1 else if DayFromYear y \<le> d then y else y - 1)"
    unfolding YearFromTime_def d_def y_def q_def Let_def by simp
  have two: "y + 1 + 1 = y + 2" by simp
  show ?thesis
    unfolding eq d_def [symmetric] using a b by (auto simp: two)
qed

lemma Day_bounds: "msPerDay * Day t \<le> t \<and> t < msPerDay * Day t + msPerDay"
  unfolding Day_def using div_lower [of msPerDay t] div_upper [of msPerDay t]
  by (simp add: msPerDay_def)

lemma YearFromTime_bounds:
  "TimeFromYear (YearFromTime t) \<le> t \<and> t < TimeFromYear (YearFromTime t + 1)"
proof -
  have a: "msPerDay * DayFromYear (YearFromTime t) \<le> msPerDay * Day t"
    using YearFromTime_day_bounds [of t] by (simp add: msPerDay_def)
  have "Day t + 1 \<le> DayFromYear (YearFromTime t + 1)"
    using YearFromTime_day_bounds [of t] by simp
  then have b: "msPerDay * Day t + msPerDay \<le> msPerDay * DayFromYear (YearFromTime t + 1)"
    by (simp add: msPerDay_def)
  show ?thesis unfolding TimeFromYear_def using a b Day_bounds [of t] by linarith
qed

lemma YearFromTime_largest:
  assumes "TimeFromYear y \<le> t" shows "y \<le> YearFromTime t"
proof (rule ccontr)
  assume "\<not> y \<le> YearFromTime t"
  then have "YearFromTime t + 1 \<le> y" by simp
  then have "DayFromYear (YearFromTime t + 1) \<le> DayFromYear y" by (rule DayFromYear_mono)
  then have "msPerDay * DayFromYear (YearFromTime t + 1) \<le> msPerDay * DayFromYear y"
    by (simp add: msPerDay_def)
  then show False using assms YearFromTime_bounds [of t] unfolding TimeFromYear_def by linarith
qed

lemma MonthFromTime_range: "0 \<le> MonthFromTime t \<and> MonthFromTime t \<le> 11"
  unfolding MonthFromTime_def Let_def by simp

lemma DaysBeforeMonth_DateFromTime:
  "DaysBeforeMonth (MonthFromTime t) (InLeapYear t) + DateFromTime t - 1 = DayWithinYear t"
proof -
  define m where "m = MonthFromTime t"
  have "0 \<le> m \<and> m \<le> 11" unfolding m_def by (rule MonthFromTime_range)
  then have "m = 0 \<or> m = 1 \<or> m = 2 \<or> m = 3 \<or> m = 4 \<or> m = 5 \<or> m = 6
    \<or> m = 7 \<or> m = 8 \<or> m = 9 \<or> m = 10 \<or> m = 11" by arith
  then show ?thesis
    unfolding DateFromTime_def DaysBeforeMonth_def Let_def m_def [symmetric]
    by (elim disjE) simp_all
qed

lemma MakeDay_of_fields:
  "MakeDay (YearFromTime t) (MonthFromTime t) (DateFromTime t + k) = Day t + k"
proof -
  have r: "0 \<le> MonthFromTime t \<and> MonthFromTime t < 12"
    using MonthFromTime_range [of t] by simp
  have d: "MonthFromTime t div 12 = 0" using r by simp
  have m: "MonthFromTime t mod 12 = MonthFromTime t" using r by simp
  have l: "(if DaysInYear (YearFromTime t) = 366 then 1 else 0) = InLeapYear t"
    by (simp add: InLeapYear_def)
  have "MakeDay (YearFromTime t) (MonthFromTime t) (DateFromTime t + k)
      = DayFromYear (YearFromTime t)
        + (DaysBeforeMonth (MonthFromTime t) (InLeapYear t) + DateFromTime t - 1) + k"
    by (simp add: MakeDay_def Let_def d m InLeapYear_def)
  also have "\<dots> = DayFromYear (YearFromTime t) + DayWithinYear t + k"
    by (simp only: DaysBeforeMonth_DateFromTime)
  also have "\<dots> = Day t + k" by (simp add: DayWithinYear_def)
  finally show ?thesis .
qed

lemma MakeDate_Day: "MakeDate (Day t + k) (TimeWithinDay t) = t + k * msPerDay"
proof -
  have "Day t * msPerDay + TimeWithinDay t = t"
    unfolding Day_def TimeWithinDay_def by (rule div_mult_mod_eq)
  then show ?thesis unfolding MakeDate_def by (simp add: algebra_simps)
qed

lemma Day_add_days: "Day (t + k * msPerDay) = Day t + k"
  unfolding Day_def by (simp add: msPerDay_def)

lemma WeekDay_add_days: "WeekDay (t + k * msPerDay) = (WeekDay t + k) mod 7"
  unfolding WeekDay_def Day_add_days by (simp add: mod_simps algebra_simps)

lemma WeekDay_range: "0 \<le> WeekDay t \<and> WeekDay t < 7"
  unfolding WeekDay_def by simp

lemma Date_setDate_add:
  "Date_setDate tza (Some t) (Some (DateFromTime (LocalTime tza t) + k))
     = TimeClip (t + k * msPerDay)"
  unfolding Date_setDate_def
  by (simp add: Let_def MakeDay_of_fields MakeDate_Day UTC_def LocalTime_def)

lemma div_succ:
  fixes a c :: int
  assumes "0 < c"
  shows "(a + 1) div c = a div c + (if c dvd (a + 1) then 1 else 0)"
proof -
  define q where "q = a div c"
  define r where "r = a mod c"
  have a: "a = c * q + r" unfolding q_def r_def by simp
  have r: "0 \<le> r" "r < c" unfolding r_def using assms by simp_all
  show ?thesis
  proof (cases "r + 1 = c")
    case True
    then have e: "a + 1 = c * (q + 1)" using a by (simp add: algebra_simps)
    have "(a + 1) div c = q + 1" unfolding e using assms by simp
    moreover have "c dvd (a + 1)" unfolding e by simp
    ultimately show ?thesis by (simp add: q_def)
  next
    case False
    then have r1: "0 \<le> r + 1" "r + 1 < c" using r by simp_all
    have e: "a + 1 = c * q + (r + 1)" using a by simp
    have d: "(a + 1) div c = q" using e r1 by (rule int_div_pos_eq)
    have "(a + 1) mod c = r + 1" using e r1 by (rule int_mod_pos_eq)
    then have "\<not> c dvd (a + 1)" using r1 r by (simp add: dvd_eq_mod_eq_0)
    then show ?thesis using d by (simp add: q_def)
  qed
qed

lemma dvd_shift: "c dvd k \<Longrightarrow> (c dvd (y - k)) = (c dvd y)" for c :: int
  by (simp add: dvd_diff_left_iff)

lemma DaysInYear_dvd:
  "DaysInYear y = 365 + (if 4 dvd y then 1 else 0) - (if 100 dvd y then 1 else 0)
     + (if 400 dvd y then 1 else 0)"
proof -
  have "(100::int) dvd 400" by simp
  then have a: "400 dvd y \<Longrightarrow> 100 dvd y" by (rule dvd_trans)
  have "(4::int) dvd 100" by simp
  then have b: "100 dvd y \<Longrightarrow> 4 dvd y" by (rule dvd_trans)
  have m4: "(y mod 4 \<noteq> 0) = (\<not> 4 dvd y)" by (simp only: dvd_eq_mod_eq_0)
  have m100: "(y mod 100 \<noteq> 0) = (\<not> 100 dvd y)" by (simp only: dvd_eq_mod_eq_0)
  have m400: "(y mod 400 \<noteq> 0) = (\<not> 400 dvd y)" by (simp only: dvd_eq_mod_eq_0)
  show ?thesis
    unfolding DaysInYear_def m4 m100 m400 using a b by auto
qed

lemma DayFromYear_Suc: "DayFromYear (y + 1) = DayFromYear y + DaysInYear y"
proof -
  have q4: "(y + 1 - 1969) div 4 = (y - 1969) div 4 + (if 4 dvd y then 1 else 0)"
    using div_succ [of 4 "y - 1969"] dvd_shift [of 4 1968 y] by (simp add: algebra_simps)
  have q100: "(y + 1 - 1901) div 100 = (y - 1901) div 100 + (if 100 dvd y then 1 else 0)"
    using div_succ [of 100 "y - 1901"] dvd_shift [of 100 1900 y] by (simp add: algebra_simps)
  have q400: "(y + 1 - 1601) div 400 = (y - 1601) div 400 + (if 400 dvd y then 1 else 0)"
    using div_succ [of 400 "y - 1601"] dvd_shift [of 400 1600 y] by (simp add: algebra_simps)
  show ?thesis
    unfolding DayFromYear_def q4 q100 q400 DaysInYear_dvd by (simp add: algebra_simps)
qed

lemma DayWithinYear_range:
  "0 \<le> DayWithinYear t \<and> DayWithinYear t < DaysInYear (YearFromTime t)"
  using YearFromTime_day_bounds [of t] DayFromYear_Suc [of "YearFromTime t"]
  unfolding DayWithinYear_def by linarith

lemma YearFromTime_unique:
  assumes "DayFromYear y \<le> Day t" "Day t < DayFromYear (y + 1)"
  shows "YearFromTime t = y"
proof -
  have "msPerDay * DayFromYear y \<le> msPerDay * Day t" using assms(1) by (simp add: msPerDay_def)
  then have "TimeFromYear y \<le> t" unfolding TimeFromYear_def using Day_bounds [of t] by linarith
  then have a: "y \<le> YearFromTime t" by (rule YearFromTime_largest)
  have "\<not> y + 1 \<le> YearFromTime t"
  proof
    assume "y + 1 \<le> YearFromTime t"
    then have "DayFromYear (y + 1) \<le> DayFromYear (YearFromTime t)" by (rule DayFromYear_mono)
    then show False using assms(2) YearFromTime_day_bounds [of t] by linarith
  qed
  then show ?thesis using a by linarith
qed

lemma Day_MakeDate: "0 \<le> time \<Longrightarrow> time < msPerDay \<Longrightarrow> Day (MakeDate day time) = day"
  unfolding Day_def MakeDate_def
  by (rule int_div_pos_eq [of _ _ _ time]) (simp_all add: algebra_simps)

lemma DaysBeforeMonth_range:
  assumes "0 \<le> mn" "mn \<le> 11" "l = 0 \<or> l = 1"
  shows "0 \<le> DaysBeforeMonth mn l \<and> DaysBeforeMonth mn l < 365 + l"
  using assms unfolding DaysBeforeMonth_def by auto

text \<open>
  \<open>MakeDay year month 1\<close> is the day number of a time value whose year is
  \<open>year + month div 12\<close>, whose month is \<open>month mod 12\<close> and whose date is 1.
\<close>

lemma MakeDay_first_of_month:
  assumes "t = MakeDate (MakeDay year month 1) 0"
  shows "YearFromTime t = year + month div 12 \<and> MonthFromTime t = month mod 12
    \<and> DateFromTime t = 1"
proof -
  define ym where "ym = year + month div 12"
  define mn where "mn = month mod 12"
  define l :: int where "l = (if DaysInYear ym = 366 then 1 else 0)"
  have mn: "0 \<le> mn" "mn \<le> 11" unfolding mn_def
    using pos_mod_sign [of 12 month] pos_mod_bound [of 12 month] by simp_all
  have l: "l = 0 \<or> l = 1" unfolding l_def by simp
  have diy: "DaysInYear ym = 365 + l" unfolding l_def DaysInYear_def by simp
  have md: "MakeDay year month 1 = DayFromYear ym + DaysBeforeMonth mn l"
    unfolding MakeDay_def Let_def ym_def mn_def l_def by simp
  have "Day t = MakeDay year month 1"
    unfolding assms by (rule Day_MakeDate) (simp_all add: msPerDay_def)
  then have day: "Day t = DayFromYear ym + DaysBeforeMonth mn l" using md by simp
  note b = DaysBeforeMonth_range [OF mn l]
  have y: "YearFromTime t = ym"
  proof (rule YearFromTime_unique)
    show "DayFromYear ym \<le> Day t" using day b by simp
    show "Day t < DayFromYear (ym + 1)" using day b diy by (simp add: DayFromYear_Suc)
  qed
  have dwy: "DayWithinYear t = DaysBeforeMonth mn l" unfolding DayWithinYear_def y day by simp
  have ily: "InLeapYear t = l" unfolding InLeapYear_def y l_def by simp
  have cases: "mn = 0 \<or> mn = 1 \<or> mn = 2 \<or> mn = 3 \<or> mn = 4 \<or> mn = 5 \<or> mn = 6
    \<or> mn = 7 \<or> mn = 8 \<or> mn = 9 \<or> mn = 10 \<or> mn = 11" using mn by arith
  have m: "MonthFromTime t = mn"
    unfolding MonthFromTime_def Let_def dwy ily DaysBeforeMonth_def
    using cases l by (elim disjE) simp_all
  have d: "DateFromTime t = 1"
    unfolding DateFromTime_def Let_def m dwy ily DaysBeforeMonth_def
    using cases l by (elim disjE) simp_all
  show ?thesis using y m d unfolding ym_def mn_def by simp
qed

lemma month_of_day:
  assumes "0 \<le> d" "d < 365 + l" "l = 0 \<or> l = 1"
    and "m = (if d < 31 then 0
      else if d < 59 + l then 1
      else if d < 90 + l then 2
      else if d < 120 + l then 3
      else if d < 151 + l then 4
      else if d < 181 + l then 5
      else if d < 212 + l then 6
      else if d < 243 + l then 7
      else if d < 273 + l then 8
      else if d < 304 + l then 9
      else if d < 334 + l then 10
      else (11::int))"
  shows "DaysBeforeMonth m l \<le> d \<and> d < DaysBeforeMonth m l + (31::int)"
  using assms unfolding DaysBeforeMonth_def by (auto split: if_splits)

lemma DateFromTime_range: "1 \<le> DateFromTime t \<and> DateFromTime t \<le> 31"
proof -
  have l: "InLeapYear t = 0 \<or> InLeapYear t = 1" unfolding InLeapYear_def by simp
  have "DaysInYear (YearFromTime t) = 365 + InLeapYear t"
    unfolding InLeapYear_def DaysInYear_def by simp
  then have r: "0 \<le> DayWithinYear t" "DayWithinYear t < 365 + InLeapYear t"
    using DayWithinYear_range [of t] by simp_all
  have m: "MonthFromTime t = (if DayWithinYear t < 31 then 0
      else if DayWithinYear t < 59 + InLeapYear t then 1
      else if DayWithinYear t < 90 + InLeapYear t then 2
      else if DayWithinYear t < 120 + InLeapYear t then 3
      else if DayWithinYear t < 151 + InLeapYear t then 4
      else if DayWithinYear t < 181 + InLeapYear t then 5
      else if DayWithinYear t < 212 + InLeapYear t then 6
      else if DayWithinYear t < 243 + InLeapYear t then 7
      else if DayWithinYear t < 273 + InLeapYear t then 8
      else if DayWithinYear t < 304 + InLeapYear t then 9
      else if DayWithinYear t < 334 + InLeapYear t then 10
      else (11::int))"
    unfolding MonthFromTime_def Let_def by (rule refl)
  show ?thesis
    using month_of_day [OF r l m] DaysBeforeMonth_DateFromTime [of t] by linarith
qed

lemma DaysInYear_gregorian: "DaysInYear y = (if gregorian_leap y then 366 else 365)"
proof -
  have "(100::int) dvd 400" by simp
  then have a: "400 dvd y \<Longrightarrow> 100 dvd y" by (rule dvd_trans)
  have "(4::int) dvd 100" by simp
  then have b: "100 dvd y \<Longrightarrow> 4 dvd y" by (rule dvd_trans)
  show ?thesis
  proof (cases "400 dvd y")
    case True
    then show ?thesis using a b by (simp add: DaysInYear_dvd gregorian_leap_def)
  next
    case n400: False
    show ?thesis
    proof (cases "100 dvd y")
      case True
      then show ?thesis using n400 b by (simp add: DaysInYear_dvd gregorian_leap_def)
    next
      case False
      then show ?thesis using n400 by (simp add: DaysInYear_dvd gregorian_leap_def)
    qed
  qed
qed

text \<open>
  The day before the first day of year \<open>y\<close> is 31 December of year \<open>y - 1\<close>, at
  midnight: the "January 0" that \<^verbatim>\<open>new Date(y, 0, 0)\<close> denotes.
\<close>

lemma january_0:
  assumes "t = (DayFromYear y - 1) * msPerDay"
  shows "YearFromTime t = y - 1 \<and> MonthFromTime t = 11 \<and> DateFromTime t = 31
    \<and> TimeWithinDay t = 0"
proof -
  define l :: int where "l = (if DaysInYear (y - 1) = 366 then 1 else 0)"
  have l: "l = 0 \<or> l = 1" unfolding l_def by simp
  have diy: "DaysInYear (y - 1) = 365 + l" unfolding l_def DaysInYear_def by simp
  have suc: "DayFromYear y = DayFromYear (y - 1) + DaysInYear (y - 1)"
    using DayFromYear_Suc [of "y - 1"] by simp
  have day: "Day t = DayFromYear y - 1" unfolding assms Day_def by (simp add: msPerDay_def)
  have yr: "YearFromTime t = y - 1"
  proof (rule YearFromTime_unique)
    show "DayFromYear (y - 1) \<le> Day t" using day suc diy l by auto
    show "Day t < DayFromYear (y - 1 + 1)" using day by simp
  qed
  have dwy: "DayWithinYear t = 364 + l" unfolding DayWithinYear_def yr day suc diy by simp
  have ily: "InLeapYear t = l" unfolding InLeapYear_def yr l_def by simp
  have m: "MonthFromTime t = 11"
    unfolding MonthFromTime_def Let_def dwy ily using l by auto
  have d: "DateFromTime t = 31"
    unfolding DateFromTime_def Let_def m dwy ily by simp
  have w: "TimeWithinDay t = 0" unfolding assms TimeWithinDay_def by simp
  show ?thesis using yr m d w by simp
qed

section \<open>Properties of the module\<close>

subsection \<open>getCountDaysInMonth\<close>

lemma getCountDaysInMonth_february:
  "getCountDaysInMonth 2 year = (if year = 2024 then Some 29 else Some 28)"
  by (simp add: getCountDaysInMonth_def)

text \<open>
  C1. The claim: for every leap year \<open>y\<close>, \<^verbatim>\<open>getCountDaysInMonth(2, y)\<close> is 29.  The source
  compares the year with the constant 2024 and nothing else
  (\<open>getCountDaysInMonth_february\<close>), so February of any other leap year has 28 days:
  2020 is divisible by 4 and not by 100, and the function returns 28 for it.  The documented contract (the number of days of the month) and
  \<^verbatim>\<open>isLeapYear\<close> of the same module follow the Gregorian rule.
\<close>

theorem getCountDaysInMonth_february_2020:
  "4 dvd (2020::int) \<and> \<not> 100 dvd (2020::int)
   \<and> getCountDaysInMonth 2 2020 = Some 28
   \<and> getCountDaysInMonth 2 2024 = Some 29"
  by (simp add: getCountDaysInMonth_def)

text \<open>
  C10. For every year and every month outside 1..12, getCountDaysInMonth returns no
  value: the switch falls to its empty default branch and \<^verbatim>\<open>result\<close> stays undefined.
\<close>

theorem getCountDaysInMonth_out_of_range:
  "month < 1 \<or> 12 < month \<Longrightarrow> getCountDaysInMonth month year = None"
  unfolding getCountDaysInMonth_def by auto

theorem getCountDaysInMonth_out_of_range_witness:
  "((13::int) < 1 \<or> 12 < (13::int)) \<and> getCountDaysInMonth 13 2024 = None
   \<and> getCountDaysInMonth 0 1999 = None"
  using getCountDaysInMonth_out_of_range [of 13 2024]
    getCountDaysInMonth_out_of_range [of 0 1999]
  by simp

subsection \<open>getCountDaysOnPeriod\<close>

lemma representable_of_int: "representable (of_int k) = (\<bar>k\<bar> < 2 ^ 53)"
  by (simp add: representable_def)

lemma count_days_spec_div: "count_days_spec s e = (e - s) div msPerDay + 1"
  unfolding count_days_spec_def by (simp only: floor_divide_of_int_eq)

text \<open>
  Where the two instants differ by a whole number of days, every intermediate result is
  an integer, the platform computes exactly, and the result is the number of days plus
  one: the floor formula of the specification.
\<close>

lemma getCountDaysOnPeriod_whole_days:
  assumes "\<bar>s\<bar> < 2 ^ 53" "\<bar>e\<bar> < 2 ^ 53" "e - s = n * msPerDay" "\<bar>n * msPerDay\<bar> < 2 ^ 53"
  shows "getCountDaysOnPeriod (Some s) (Some e) = Finite (of_int (count_days_spec s e))"
proof -
  have n: "\<bar>n\<bar> * 86400000 < 2 ^ 53" using assms(4) by (simp add: msPerDay_def abs_mult)
  have "\<bar>e - s\<bar> < 2 ^ 53" using assms(3,4) by simp
  then have "representable (of_int (e - s))" by (simp only: representable_of_int)
  then have r0: "representable (of_int e - of_int s)" by (simp only: of_int_diff)
  have q1: "(of_int e - of_int s :: rat) / 1000 = of_int (n * 86400)"
    using arg_cong [OF assms(3), of "of_int :: int \<Rightarrow> rat"] by (simp add: msPerDay_def)
  have r1: "representable (of_int (n * 86400))"
    unfolding representable_of_int using n by (simp add: abs_mult)
  have q2: "(of_int (n * 86400) :: rat) / 3600 = of_int (n * 24)" by simp
  have r2: "representable (of_int (n * 24))"
    unfolding representable_of_int using n by (simp add: abs_mult)
  have q3: "(of_int (n * 24) :: rat) / 24 = of_int n" by simp
  have r3: "representable (of_int n)"
    unfolding representable_of_int using n by simp
  have q4: "(of_int n :: rat) + 1 = of_int (n + 1)" by simp
  have r4: "representable (of_int (n + 1))"
    unfolding representable_of_int using n by simp
  have c: "count_days_spec s e = n + 1"
    unfolding count_days_spec_div assms(3) by (simp add: msPerDay_def)
  have v: "getCountDaysOnPeriod (Some s) (Some e) = Finite (of_int (n + 1))"
    unfolding getCountDaysOnPeriod_def Let_def of_number_def d_add_def d_sub_def d_div_def
      d_binop_def round_exact_def
    using assms(1,2) r0 r1 r2 r3 r4
    by (simp add: representable_of_int q1 q2 q3 q4 del: of_int_add of_int_mult)
  show ?thesis using v c by simp
qed

text \<open>
  C3. The claim: the result is \<open>floor((end - start) / day) + 1\<close>, an integer also when
  the two instants differ by a fraction of a day.  The source divides and adds one, and
  never rounds: from 2024-02-01T00:00:00Z to 2024-02-01T12:00:00Z it returns 1.5 (each
  step, 43200000 / 1000 / 3600 / 24 + 1, is exact in doubles), where the claim and the
  "total count of days" of the function's documentation have 1.  On periods of whole
  days the source does return the claimed integer (\<open>getCountDaysOnPeriod_whole_days\<close>),
  and for one and the same instant it returns 1.
\<close>

theorem getCountDaysOnPeriod_half_day:
  "(1706745600000::int) \<le> 1706788800000
   \<and> getCountDaysOnPeriod (Some 1706745600000) (Some 1706788800000) = Finite (3 / 2)
   \<and> count_days_spec 1706745600000 1706788800000 = 1
   \<and> getCountDaysOnPeriod (Some 1706745600000) (Some 1706745600000) = Finite 1"
  by code_simp

subsection \<open>isDateInPeriod\<close>

text \<open>
  C7. For parseable strings, isDateInPeriod is true exactly when
  \<open>start \<le> date \<le> end\<close> as instants: true at both boundaries, false outside the closed
  interval.
\<close>

theorem isDateInPeriod_closed_interval:
  "isDateInPeriod (Some d) \<lparr>period_start = Some s, period_end = Some e\<rparr> = (s \<le> d \<and> d \<le> e)"
  by (simp add: isDateInPeriod_def js_le_def js_ge_def)

text \<open>
  The examples of the source, with period 2024-02-02 to 2024-03-02: 2024-02-01 is
  outside, 2024-02-02 (the start), 2024-02-10 and 2024-03-02 (the end) are inside, and
  one millisecond after the end is outside.
\<close>

theorem isDateInPeriod_closed_interval_witness:
  "\<not> isDateInPeriod (Some 1706745600000)
       \<lparr>period_start = Some 1706832000000, period_end = Some 1709337600000\<rparr>
   \<and> isDateInPeriod (Some 1706832000000)
       \<lparr>period_start = Some 1706832000000, period_end = Some 1709337600000\<rparr>
   \<and> isDateInPeriod (Some 1707523200000)
       \<lparr>period_start = Some 1706832000000, period_end = Some 1709337600000\<rparr>
   \<and> isDateInPeriod (Some 1709337600000)
       \<lparr>period_start = Some 1706832000000, period_end = Some 1709337600000\<rparr>
   \<and> \<not> isDateInPeriod (Some 1709337600001)
       \<lparr>period_start = Some 1706832000000, period_end = Some 1709337600000\<rparr>"
  using isDateInPeriod_closed_interval [of 1706745600000 1706832000000 1709337600000]
    isDateInPeriod_closed_interval [of 1706832000000 1706832000000 1709337600000]
    isDateInPeriod_closed_interval [of 1707523200000 1706832000000 1709337600000]
    isDateInPeriod_closed_interval [of 1709337600000 1706832000000 1709337600000]
    isDateInPeriod_closed_interval [of 1709337600001 1706832000000 1709337600000]
  by simp

subsection \<open>The two stubs\<close>

text \<open>
  C8. For every input, getNextFridayThe13th and getWorkSchedule fail with the error
  "Not implemented": neither returns a value, and the state is the one they were called
  in.
\<close>

theorem stubs_not_implemented:
  "getNextFridayThe13th args st = (Inl (Error ''Not implemented''), st)
   \<and> getWorkSchedule args' st' = (Inl (Error ''Not implemented''), st')
   \<and> (\<forall>r. fst (getNextFridayThe13th args st) \<noteq> Inr r)
   \<and> (\<forall>r. fst (getWorkSchedule args' st') \<noteq> Inr r)"
  by (simp add: getNextFridayThe13th_def getWorkSchedule_def)

subsection \<open>getNextFriday\<close>

lemma getNextFriday_unfold:
  "getNextFriday tza (Some t) =
     TimeClip (t + (if WeekDay (LocalTime tza t) = 5 then 7
                    else (5 - WeekDay (LocalTime tza t)) mod 7) * msPerDay)"
proof -
  define w where "w = WeekDay (LocalTime tza t)"
  have "0 \<le> w \<and> w < 7" unfolding w_def by (rule WeekDay_range)
  then have c: "w = 0 \<or> w = 1 \<or> w = 2 \<or> w = 3 \<or> w = 4 \<or> w = 5 \<or> w = 6" by arith
  have g: "Date_getDay tza (Some t) = Some w" by (simp add: Date_getDay_def w_def)
  have d: "Date_getDate tza (Some t) = Some (DateFromTime (LocalTime tza t))"
    by (simp add: Date_getDate_def)
  show ?thesis
    unfolding getNextFriday_def Let_def g d w_def [symmetric]
    using c by (elim disjE) (simp_all add: js_add_def Date_setDate_add)
qed

lemma friday_offset:
  assumes "0 \<le> w" "w < 7" "k = (if w = 5 then 7 else (5 - w) mod 7)"
  shows "1 \<le> k \<and> k \<le> 7 \<and> (w + k) mod 7 = 5 \<and> (w = 5 \<longrightarrow> k = 7) \<and> (w \<noteq> 5 \<longrightarrow> k \<le> 6)
    \<and> (\<forall>j. 1 \<le> j \<and> j < k \<longrightarrow> (w + j) mod 7 \<noteq> (5::int))"
proof -
  have c: "w = 0 \<or> w = 1 \<or> w = 2 \<or> w = 3 \<or> w = 4 \<or> w = 5 \<or> w = 6"
    using assms(1,2) by arith
  show ?thesis using c unfolding assms(3)
    by (elim disjE) (simp_all, presburger+)
qed

text \<open>
  C4. The claim: for every input date, getNextFriday returns the first Friday strictly
  after the input.  \<^verbatim>\<open>setDate\<close> clips its result to the range of \<^verbatim>\<open>Date\<close>, so the claim holds
  for every valid date whose next Friday is still in that range: with \<open>w\<close> the local
  weekday of the input and \<open>k\<close> the number of days to add (7 on a Friday, otherwise the
  1 to 6 days up to Friday), the result is the input plus \<open>k\<close> days, it is a Friday, and
  none of the days between is one.
\<close>

theorem getNextFriday_next_friday:
  assumes "\<bar>t\<bar> \<le> maxTime"
    and "w = WeekDay (LocalTime tza t)"
    and "k = (if w = 5 then 7 else (5 - w) mod 7)"
    and "t + k * msPerDay \<le> maxTime"
  shows "getNextFriday tza (Some t) = Some (t + k * msPerDay)
    \<and> Date_getDay tza (Some (t + k * msPerDay)) = Some 5
    \<and> 1 \<le> k \<and> k \<le> 7
    \<and> (\<forall>j. 1 \<le> j \<and> j < k \<longrightarrow> Date_getDay tza (Some (t + j * msPerDay)) \<noteq> Some 5)
    \<and> (w = 5 \<longrightarrow> k = 7) \<and> (w \<noteq> 5 \<longrightarrow> k \<le> 6)"
proof -
  have r: "0 \<le> w" "w < 7" using WeekDay_range [of "LocalTime tza t"] assms(2) by simp_all
  note f = friday_offset [OF r assms(3)]
  have k1: "1 \<le> k" using f by simp
  have "0 \<le> k * msPerDay" using k1 by (simp add: msPerDay_def)
  then have "\<bar>t + k * msPerDay\<bar> \<le> maxTime" using assms(1,4) by linarith
  then have res: "getNextFriday tza (Some t) = Some (t + k * msPerDay)"
    unfolding getNextFriday_unfold assms(3) assms(2) by (simp add: TimeClip_def)
  have wd: "\<And>j. Date_getDay tza (Some (t + j * msPerDay)) = Some ((w + j) mod 7)"
    unfolding Date_getDay_def assms(2) LocalTime_def
    using WeekDay_add_days [of "t + tza"] by (simp add: algebra_simps)
  show ?thesis using res f by (simp add: wd)
qed

text \<open>
  The examples of the source: Saturday 2024-02-03 gives 2024-02-09, six days later;
  Friday 2024-02-16 gives 2024-02-23, seven days later.
\<close>

theorem getNextFriday_next_friday_witness:
  "\<bar>1706918400000\<bar> \<le> maxTime
   \<and> WeekDay (LocalTime 0 1706918400000) = 6
   \<and> 1706918400000 + 6 * msPerDay \<le> maxTime
   \<and> getNextFriday 0 (Some 1706918400000) = Some 1707436800000
   \<and> Date_getDay 0 (Some 1707436800000) = Some 5
   \<and> WeekDay (LocalTime 0 1708041600000) = 5
   \<and> getNextFriday 0 (Some 1708041600000) = Some (1708041600000 + 7 * msPerDay)"
proof -
  have a: "\<bar>1706918400000\<bar> \<le> maxTime" by (simp add: maxTime_def)
  have w: "6 = WeekDay (LocalTime 0 1706918400000)"
    by (simp add: WeekDay_def LocalTime_def Day_def msPerDay_def)
  have k: "(6::int) = (if (6::int) = 5 then 7 else (5 - 6) mod 7)" by simp
  have b: "1706918400000 + 6 * msPerDay \<le> maxTime" by (simp add: maxTime_def msPerDay_def)
  have a': "\<bar>1708041600000\<bar> \<le> maxTime" by (simp add: maxTime_def)
  have w': "5 = WeekDay (LocalTime 0 1708041600000)"
    by (simp add: WeekDay_def LocalTime_def Day_def msPerDay_def)
  have k': "(7::int) = (if (5::int) = 5 then 7 else (5 - 5) mod 7)" by simp
  have b': "1708041600000 + 7 * msPerDay \<le> maxTime" by (simp add: maxTime_def msPerDay_def)
  show ?thesis
    using getNextFriday_next_friday [OF a w k b] getNextFriday_next_friday [OF a' w' k' b']
      a b w w'
    by (simp add: msPerDay_def)
qed

text \<open>
  The last instant of the range, 8.64e15 ms, is a Saturday (13 September 275760); the
  Friday after it is not a \<^verbatim>\<open>Date\<close>, and the function returns Invalid Date.
\<close>

theorem getNextFriday_end_of_range:
  "TimeClip 8640000000000000 = Some 8640000000000000
   \<and> Date_getDay 0 (Some 8640000000000000) = Some 6
   \<and> getNextFriday 0 (Some 8640000000000000) = None"
  by (simp add: getNextFriday_unfold TimeClip_def maxTime_def Date_getDay_def WeekDay_def
      LocalTime_def Day_def msPerDay_def)

subsection \<open>getWeekNumberByDate\<close>

text \<open>
  C5. The claim: for every valid date the result is an integer, at least 1, the number
  of the week when week 1 is the week that contains 1 January (weeks begin on Monday, as
  the function's documentation says).  The source fails it in two ways.

  \<^item> The day count keeps the time of day, so a Sunday after local midnight gets the number
    of the next week.  In 2024, week 1 is Monday 1 January to Sunday 7 January: the
    source returns 1 for 7 January at 00:00 and 2 for 7 January at 21:00
    (680400000 / 86400000 = 7.875, and 7.875 / 7 = 1.125, both exact in doubles).
  \<^item> \<^verbatim>\<open>new Date(year, 0, 0)\<close> reads a year from 0 to 99 as 1900 to 1999: for 15 June of the
    year 50, 12:00, "January 0" is 31 December 1949 and the result is -99112.
\<close>

theorem getWeekNumberByDate_sunday_evening:
  "Date_getFullYear 0 (Some 1704661200000) = Some 2024
   \<and> Date_getUTCMonth (Some 1704661200000) = Some 0
   \<and> Date_getDate 0 (Some 1704661200000) = Some 7
   \<and> Date_getDay 0 (Some 1704661200000) = Some 0
   \<and> Date_getDay 0 (Some 1704067200000) = Some 1
   \<and> Date_getDate 0 (Some 1704067200000) = Some 1
   \<and> getWeekNumberByDate 0 (Some 1704585600000) = Finite 1
   \<and> getWeekNumberByDate 0 (Some 1704661200000) = Finite 2
   \<and> TimeClip (- 60574996800000) = Some (- 60574996800000)
   \<and> Date_getFullYear 0 (Some (- 60574996800000)) = Some 50
   \<and> Date_of_fields 0 (Some 50) (Some 0) (Some 0) = Some (- 631238400000)
   \<and> Date_getFullYear 0 (Some (- 631238400000)) = Some 1949
   \<and> getWeekNumberByDate 0 (Some (- 60574996800000)) = Finite (- 99112)"
  by code_simp

subsection \<open>formatDate\<close>

lemma nat_toString_one_digit: "n < 10 \<Longrightarrow> nat_toString n = [digit_char n]"
  by (simp add: nat_toString.simps)

lemma nat_toString_two_digits:
  "10 \<le> n \<Longrightarrow> n < 100 \<Longrightarrow> nat_toString n = [digit_char (n div 10), digit_char (n mod 10)]"
  by (subst nat_toString.simps) (simp add: nat_toString_one_digit)

lemma digit_char_0: "digit_char 0 = CHR ''0''"
  by (simp add: digit_char_def)

lemma pad_two_digits:
  assumes "0 \<le> n" "n < 100"
  shows "(if js_lt (Some n) (Some 10) then ''0'' @ number_toString (Some n)
          else number_toString (Some n)) = two_digits n"
proof (cases "n < 10")
  case True
  then have "nat n < 10" using assms by simp
  then show ?thesis using True assms
    by (simp add: js_lt_def number_toString_def two_digits_def nat_toString_one_digit digit_char_0)
next
  case False
  then have "10 \<le> nat n" "nat n < 100" using assms by simp_all
  then show ?thesis using False assms
    by (simp add: js_lt_def number_toString_def two_digits_def nat_toString_two_digits)
qed

lemma MinFromTime_range: "0 \<le> MinFromTime t \<and> MinFromTime t < 100"
  unfolding MinFromTime_def
  using pos_mod_sign [of 60 "t div msPerMinute"] pos_mod_bound [of 60 "t div msPerMinute"]
  by simp

lemma SecFromTime_range: "0 \<le> SecFromTime t \<and> SecFromTime t < 100"
  unfolding SecFromTime_def
  using pos_mod_sign [of 60 "t div msPerSecond"] pos_mod_bound [of 60 "t div msPerSecond"]
  by simp

lemma number_toString_12: "number_toString (Some 12) = ''12''"
  by (simp add: number_toString_def nat_toString_two_digits digit_char_def)

lemma number_toString_0: "number_toString (Some 0) = ''0''"
  by (simp add: number_toString_def nat_toString_one_digit digit_char_def)

lemma formatDate_fields:
  "formatDate tza (Some t) =
     number_toString (Some (MonthFromTime t + 1)) @ ''/''
     @ number_toString (Some (DateFromTime t)) @ ''/''
     @ number_toString (Some (YearFromTime (LocalTime tza t))) @ '', ''
     @ number_toString (Some (if HourFromTime t > 12 then HourFromTime t - 12 else HourFromTime t))
     @ '':'' @ two_digits (MinFromTime t) @ '':'' @ two_digits (SecFromTime t) @ '' ''
     @ (if HourFromTime t < 12 then ''AM'' else ''PM'')"
proof -
  have m: "(if js_lt (Some (MinFromTime t)) (Some 10)
            then ''0'' @ number_toString (Some (MinFromTime t))
            else number_toString (Some (MinFromTime t))) = two_digits (MinFromTime t)"
    using MinFromTime_range [of t] by (intro pad_two_digits) simp_all
  have s: "(if js_lt (Some (SecFromTime t)) (Some 10)
            then ''0'' @ number_toString (Some (SecFromTime t))
            else number_toString (Some (SecFromTime t))) = two_digits (SecFromTime t)"
    using SecFromTime_range [of t] by (intro pad_two_digits) simp_all
  have h: "(if js_gt (Some (HourFromTime t)) (Some 12)
            then js_sub (Some (HourFromTime t)) (Some 12) else Some (HourFromTime t))
      = Some (if HourFromTime t > 12 then HourFromTime t - 12 else HourFromTime t)"
    by (simp add: js_gt_def js_sub_def)
  have p: "(if js_lt (Some (HourFromTime t)) (Some 12) then ''AM'' else ''PM'')
      = (if HourFromTime t < 12 then ''AM'' else ''PM'')"
    by (simp add: js_lt_def)
  show ?thesis
    unfolding formatDate_def Let_def Date_getFullYear_def Date_getUTCMonth_def
      Date_getUTCDate_def Date_getUTCHours_def Date_getUTCMinutes_def Date_getUTCSeconds_def
      option.map m s h p
    by (simp add: js_add_def)
qed

lemma formatDate_midnight_hour:
  "HourFromTime t = 0 \<Longrightarrow>
   formatDate tza (Some t) =
     number_toString (Some (MonthFromTime t + 1)) @ ''/''
     @ number_toString (Some (DateFromTime t)) @ ''/''
     @ number_toString (Some (YearFromTime (LocalTime tza t)))
     @ '', 0:'' @ two_digits (MinFromTime t) @ '':'' @ two_digits (SecFromTime t) @ '' AM''"
  by (simp add: formatDate_fields number_toString_0)

text \<open>
  C2. The claim: a date whose UTC hour is 0 is displayed with hour 12 and suffix AM.
  The source subtracts 12 from hours above 12 and leaves every other hour as it is, so
  midnight is displayed as hour 0 (\<open>formatDate_midnight_hour\<close>):
  2024-02-01T00:05:09Z is formatted as "2/1/2024, 0:05:09 AM", where the 12-hour format
  of the function's documentation has "12:05:09 AM".
\<close>

theorem formatDate_midnight_2024:
  "HourFromTime 1706745909000 = 0
   \<and> formatDate 0 (Some 1706745909000) = ''2/1/2024, 0:05:09 AM''"
  by code_simp

text \<open>
  C9. For every date whose UTC hour is 12, formatDate displays the hour as 12 with
  suffix PM: 12 is not below 12, so the suffix is PM, and 12 is not above 12, so nothing
  is subtracted.  Minutes and seconds have two digits.
\<close>

theorem formatDate_noon:
  "HourFromTime t = 12 \<Longrightarrow>
   formatDate tza (Some t) =
     number_toString (Some (MonthFromTime t + 1)) @ ''/''
     @ number_toString (Some (DateFromTime t)) @ ''/''
     @ number_toString (Some (YearFromTime (LocalTime tza t)))
     @ '', 12:'' @ two_digits (MinFromTime t) @ '':'' @ two_digits (SecFromTime t) @ '' PM''"
  by (simp add: formatDate_fields number_toString_12)

theorem formatDate_noon_witness:
  "HourFromTime 1706789109000 = 12
   \<and> formatDate 0 (Some 1706789109000) = ''2/1/2024, 12:05:09 PM''"
proof -
  have h: "HourFromTime 1706789109000 = 12"
    by (simp add: HourFromTime_def msPerHour_def)
  have e: "number_toString (Some (MonthFromTime 1706789109000 + 1)) @ ''/''
     @ number_toString (Some (DateFromTime 1706789109000)) @ ''/''
     @ number_toString (Some (YearFromTime (LocalTime 0 1706789109000)))
     @ '', 12:'' @ two_digits (MinFromTime 1706789109000) @ '':''
     @ two_digits (SecFromTime 1706789109000) @ '' PM'' = ''2/1/2024, 12:05:09 PM''"
    by code_simp
  show ?thesis using formatDate_noon [OF h, of 0] h e by simp
qed

subsection \<open>isLeapYear\<close>

lemma js_rem_zero_iff:
  assumes "0 < n"
  shows "(js_rem (Some y) (Some n) = Some 0) = (n dvd y)"
proof -
  have "(sgn y * (\<bar>y\<bar> mod n) = 0) = (n dvd y)"
  proof (cases "y = 0")
    case True
    then show ?thesis by simp
  next
    case False
    then have "(sgn y * (\<bar>y\<bar> mod n) = 0) = (\<bar>y\<bar> mod n = 0)" by (simp add: sgn_if)
    also have "\<dots> = (n dvd \<bar>y\<bar>)" by (simp add: dvd_eq_mod_eq_0)
    also have "\<dots> = (n dvd y)" by simp
    finally show ?thesis .
  qed
  then show ?thesis using assms by (simp add: js_rem_def)
qed

lemma leap_test_gregorian:
  "((js_rem (Some y) (Some 4) = Some 0 \<and> js_rem (Some y) (Some 100) \<noteq> Some 0)
    \<or> (js_rem (Some y) (Some 100) = Some 0 \<and> js_rem (Some y) (Some 400) = Some 0))
   = gregorian_leap y"
proof -
  have "(100::int) dvd 400" by simp
  then have a: "400 dvd y \<Longrightarrow> 100 dvd y" by (rule dvd_trans)
  have "(4::int) dvd 100" by simp
  then have b: "100 dvd y \<Longrightarrow> 4 dvd y" by (rule dvd_trans)
  show ?thesis
    unfolding gregorian_leap_def
    using a b by (auto simp: js_rem_zero_iff)
qed

text \<open>
  C6. For every date with local year \<open>y\<close>, isLeapYear is true exactly when \<open>y\<close> is
  divisible by 4 and (not divisible by 100, or divisible by 400); the two-branch test
  of the source, with the truncating remainder of the platform, is the Gregorian rule
  for every integer \<open>y\<close>, negative years included.
\<close>

theorem isLeapYear_gregorian:
  assumes "Date_getFullYear tza (Some t) = Some y"
  shows "isLeapYear tza (Some t) = gregorian_leap y
    \<and> ((js_rem (Some y) (Some 4) = Some 0 \<and> js_rem (Some y) (Some 100) \<noteq> Some 0)
        \<or> (js_rem (Some y) (Some 100) = Some 0 \<and> js_rem (Some y) (Some 400) = Some 0))
       = gregorian_leap y"
  using leap_test_gregorian [of y]
  unfolding isLeapYear_def Let_def assms by auto

theorem isLeapYear_gregorian_witness:
  "Date_getFullYear 0 (Some 1706745600000) = Some 2024
   \<and> isLeapYear 0 (Some 1706745600000) \<and> gregorian_leap 2024"
proof -
  have y: "Date_getFullYear 0 (Some 1706745600000) = Some 2024"
    by (simp add: Date_getFullYear_def YearFromTime_def LocalTime_def Day_def msPerDay_def
        DayFromYear_def Let_def)
  have g: "gregorian_leap 2024" by (simp add: gregorian_leap_def)
  show ?thesis using isLeapYear_gregorian [OF y] y g by simp
qed

end
